theory Spec2Isabelle
  imports Main
begin

section \<open>Data model of \<^verbatim>\<open>lb5.cpp\<close>\<close>

text \<open>
  The program demonstrates three patterns (Strategy, Chain of Responsibility, Visitor).
  Everything it does beyond returning values is writing to \<^verbatim>\<open>std::cout\<close> and
  assigning pointers, so the model threads an explicit state through every call.

  \<^item> An address is a natural number; a raw pointer \<^verbatim>\<open>T*\<close> is an optional address,
    \<open>None\<close> being \<^verbatim>\<open>nullptr\<close>.
  \<^item> A \<^verbatim>\<open>std::unique_ptr<T>\<close> is either \<open>nullptr\<close> or \<open>Owns a x\<close>: the exclusive
    owner carries the object \<open>x\<close> it owns together with its address \<open>a\<close>, so an owned
    object is alive as long as its owner is.
  \<^item> Handlers are referred to through \<^verbatim>\<open>std::shared_ptr\<close>, which allows aliasing and
    cycles; they live in a heap (a list indexed by address) and a
    \<^verbatim>\<open>shared_ptr<Handler>\<close> is an optional address into it.
  \<^item> \<^verbatim>\<open>std::cout\<close> is the list of the texts written so far, one entry for each
    output statement of the source.
  \<^item> A call that does not return normally (dereferencing a null or dangling pointer,
    unbounded recursion) has the result \<open>None\<close>.
\<close>

type_synonym addr = nat

type_synonym pointer = "addr option"

datatype 'a unique_ptr = nullptr | Owns addr 'a

text \<open>\<^verbatim>\<open>unique_ptr::get\<close>: the raw pointer, ownership stays with the \<open>unique_ptr\<close>.\<close>

fun get :: "'a unique_ptr \<Rightarrow> pointer" where
  "get nullptr = None"
| "get (Owns a x) = Some a"

text \<open>The concrete subclasses of \<^verbatim>\<open>ProcessingStrategy\<close>; neither has a field.\<close>

datatype ProcessingStrategy = PrintStrategy | SaveStrategy

text \<open>The concrete subclasses of \<^verbatim>\<open>Handler\<close>, and a handler object: its dynamic class
  and the inherited field \<^verbatim>\<open>next\<close>.\<close>

datatype Handler_class = FormatChecker | SecurityChecker

record Handler =
  dyn_class :: Handler_class
  next' :: pointer

text \<open>The concrete subclasses of \<^verbatim>\<open>Document\<close> and of \<^verbatim>\<open>Visitor\<close>; none has a field.\<close>

datatype Document = PDFDocument | TXTDocument

datatype Visitor = DisplayVisitor

record state =
  handlers :: "Handler list"
  cout :: "string list"

abbreviation newline :: string where
  "newline \<equiv> [CHR 0x0A]"

text \<open>One output statement \<^verbatim>\<open>std::cout << ... ;\<close>.\<close>

definition print :: "string \<Rightarrow> state \<Rightarrow> state" where
  "print s st = st\<lparr>cout := cout st @ [s]\<rparr>"

section \<open>Strategy\<close>

text \<open>\<^verbatim>\<open>ProcessingStrategy::process\<close>, dispatched on the dynamic class (lines 15-17, 22-24).\<close>

fun Strategy_process :: "ProcessingStrategy \<Rightarrow> string \<Rightarrow> state \<Rightarrow> state" where
  "Strategy_process PrintStrategy docType st =
     print (''[Strategy] Printing '' @ docType @ '' document...'' @ newline) st"
| "Strategy_process SaveStrategy docType st =
     print (''[Strategy] Saving '' @ docType @ '' document...'' @ newline) st"

record DocumentProcessor =
  strategy :: "ProcessingStrategy unique_ptr"

text \<open>The implicit default constructor: the \<open>unique_ptr\<close> member starts out null.\<close>

definition DocumentProcessor_new :: DocumentProcessor where
  "DocumentProcessor_new = \<lparr>strategy = nullptr\<rparr>"

text \<open>Lines 32-34. Move assignment destroys the strategy owned before.\<close>

definition setStrategy :: "ProcessingStrategy unique_ptr \<Rightarrow> DocumentProcessor \<Rightarrow> DocumentProcessor" where
  "setStrategy s p = p\<lparr>strategy := s\<rparr>"

text \<open>Lines 36-39. The method is not \<^verbatim>\<open>const\<close>: it returns the receiver with the state.\<close>

definition executeStrategy :: "DocumentProcessor \<Rightarrow> string \<Rightarrow> state \<Rightarrow> DocumentProcessor \<times> state" where
  "executeStrategy p docType st =
     (case strategy p of
        Owns a s \<Rightarrow> (p, Strategy_process s docType st)
      | nullptr \<Rightarrow> (p, print (''No strategy selected.'' @ newline) st))"

section \<open>Chain of Responsibility\<close>

text \<open>\<^verbatim>\<open>std::make_shared<C>()\<close>: a new handler at a fresh address, its \<^verbatim>\<open>next\<close> null.\<close>

definition make_shared :: "Handler_class \<Rightarrow> state \<Rightarrow> addr \<times> state" where
  "make_shared c st =
     (length (handlers st),
      st\<lparr>handlers := handlers st @ [\<lparr>dyn_class = c, next' = None\<rparr>]\<rparr>)"

text \<open>Lines 47-49, called on the handler at address \<open>self\<close>.\<close>

definition setNext :: "addr \<Rightarrow> pointer \<Rightarrow> state \<Rightarrow> state option" where
  "setNext self n st =
     (if self < length (handlers st)
      then Some (st\<lparr>handlers := (handlers st)[self := (handlers st ! self)\<lparr>next' := n\<rparr>]\<rparr>)
      else None)"

text \<open>
  \<^verbatim>\<open>Handler::handle\<close>, called on the handler at address \<open>self\<close> and dispatched on its
  dynamic class: \<^verbatim>\<open>FormatChecker::handle\<close> (lines 56-64) and
  \<^verbatim>\<open>SecurityChecker::handle\<close> (lines 69-73). The recursion follows \<^verbatim>\<open>next\<close> and need
  not end when the links form a cycle.
\<close>

partial_function (option) handle :: "addr \<Rightarrow> string \<Rightarrow> state \<Rightarrow> (bool \<times> state) option" where
  "handle self docType st =
     (if self < length (handlers st) then
        (case dyn_class (handlers st ! self) of
           FormatChecker \<Rightarrow>
             (let st1 = print (''[Chain] Checking format of '' @ docType @ ''...'' @ newline) st in
              if docType = ''PDF'' \<or> docType = ''TXT'' \<or> docType = ''DOCX'' then
                (case next' (handlers st1 ! self) of
                   Some n \<Rightarrow> handle n docType st1
                 | None \<Rightarrow> Some (True, st1))
              else Some (False, print (''Format not supported.'' @ newline) st1))
         | SecurityChecker \<Rightarrow>
             (let st1 = print (''[Chain] Security check passed for '' @ docType @ ''.'' @ newline) st in
              case next' (handlers st1 ! self) of
                Some n \<Rightarrow> handle n docType st1
              | None \<Rightarrow> Some (True, st1)))
      else None)"

declare handle.simps [code]

section \<open>Visitor\<close>

text \<open>The two overloads of \<^verbatim>\<open>Visitor::visit\<close> (lines 110-115); \<open>doc\<close> is the address
  of the visited document.\<close>

fun visit_PDFDocument :: "Visitor \<Rightarrow> addr \<Rightarrow> state \<Rightarrow> state" where
  "visit_PDFDocument DisplayVisitor doc st =
     print (''[Visitor] Displaying PDF content.'' @ newline) st"

fun visit_TXTDocument :: "Visitor \<Rightarrow> addr \<Rightarrow> state \<Rightarrow> state" where
  "visit_TXTDocument DisplayVisitor doc st =
     print (''[Visitor] Displaying TXT content.'' @ newline) st"

text \<open>\<^verbatim>\<open>Document::accept\<close> on the document \<open>d\<close> at address \<open>self\<close> (lines 119-120): the
  dynamic class of the document selects the overload.\<close>

fun accept :: "addr \<Rightarrow> Document \<Rightarrow> Visitor \<Rightarrow> state \<Rightarrow> state" where
  "accept self PDFDocument v st = visit_PDFDocument v self st"
| "accept self TXTDocument v st = visit_TXTDocument v self st"

text \<open>\<^verbatim>\<open>Document::getType\<close> (lines 90, 96).\<close>

fun getType :: "Document \<Rightarrow> string" where
  "getType PDFDocument = ''PDF''"
| "getType TXTDocument = ''TXT''"

record DocumentStructure =
  docs :: "Document unique_ptr list"

definition DocumentStructure_new :: DocumentStructure where
  "DocumentStructure_new = \<lparr>docs = []\<rparr>"

text \<open>Lines 127-129.\<close>

definition add :: "Document unique_ptr \<Rightarrow> DocumentStructure \<Rightarrow> DocumentStructure" where
  "add doc s = s\<lparr>docs := docs s @ [doc]\<rparr>"

text \<open>The loop of lines 132-134 over the members still to visit; \<^verbatim>\<open>doc->accept(v)\<close> on
  a null member does not return.\<close>

fun process_loop :: "Document unique_ptr list \<Rightarrow> Visitor \<Rightarrow> state \<Rightarrow> state option" where
  "process_loop [] v st = Some st"
| "process_loop (doc # rest) v st =
     (case doc of
        nullptr \<Rightarrow> None
      | Owns a d \<Rightarrow> process_loop rest v (accept a d v st))"

text \<open>Lines 131-135. The method is not \<^verbatim>\<open>const\<close>: it returns the receiver with the state.\<close>

definition DocumentStructure_process ::
  "DocumentStructure \<Rightarrow> Visitor \<Rightarrow> state \<Rightarrow> (DocumentStructure \<times> state) option" where
  "DocumentStructure_process s v st =
     (case process_loop (docs s) v st of
        None \<Rightarrow> None
      | Some st' \<Rightarrow> Some (s, st'))"

text \<open>The loop of line 139, pushing \<^verbatim>\<open>d.get()\<close> onto \<open>result\<close>.\<close>

fun getAll_loop :: "Document unique_ptr list \<Rightarrow> pointer list \<Rightarrow> pointer list" where
  "getAll_loop [] result = result"
| "getAll_loop (d # rest) result = getAll_loop rest (result @ [get d])"

text \<open>Lines 137-141. The method is not \<^verbatim>\<open>const\<close>: it returns the receiver with the result.\<close>

definition getAll :: "DocumentStructure \<Rightarrow> pointer list \<times> DocumentStructure" where
  "getAll s = (getAll_loop (docs s) [], s)"

text \<open>Lines 147-149 of \<^verbatim>\<open>main\<close>: a \<open>FormatChecker\<close> linked to a \<open>SecurityChecker\<close>;
  the result is \<^verbatim>\<open>checker1\<close>.\<close>

definition build_chain :: "state \<Rightarrow> (addr \<times> state) option" where
  "build_chain st =
     (let (checker1, st1) = make_shared FormatChecker st;
          (checker2, st2) = make_shared SecurityChecker st1
      in case setNext checker1 (Some checker2) st2 of
           None \<Rightarrow> None
         | Some st3 \<Rightarrow> Some (checker1, st3))"

text \<open>Lines 163-165 of \<^verbatim>\<open>main\<close>, the two documents allocated at \<open>a\<close> and \<open>b\<close>.\<close>

definition build_structure :: "addr \<Rightarrow> addr \<Rightarrow> DocumentStructure" where
  "build_structure a b =
     add (Owns b TXTDocument) (add (Owns a PDFDocument) DocumentStructure_new)"

section \<open>Auxiliary notions\<close>

text \<open>The texts written by the handlers, the test of line 58, and the tail shared by both
  handlers (\<^verbatim>\<open>if (next) return next->handle(docType); return true;\<close>), named so that
  proofs can refer to them.\<close>

definition checking_line :: "string \<Rightarrow> string" where
  "checking_line docType = ''[Chain] Checking format of '' @ docType @ ''...'' @ newline"

definition security_line :: "string \<Rightarrow> string" where
  "security_line docType = ''[Chain] Security check passed for '' @ docType @ ''.'' @ newline"

definition unsupported_line :: string where
  "unsupported_line = ''Format not supported.'' @ newline"

definition recognized :: "string \<Rightarrow> bool" where
  "recognized docType \<longleftrightarrow> docType = ''PDF'' \<or> docType = ''TXT'' \<or> docType = ''DOCX''"

definition delegate ::
  "(addr \<Rightarrow> string \<Rightarrow> state \<Rightarrow> (bool \<times> state) option) \<Rightarrow> pointer \<Rightarrow> string \<Rightarrow> state
     \<Rightarrow> (bool \<times> state) option" where
  "delegate h p docType st = (case p of Some n \<Rightarrow> h n docType st | None \<Rightarrow> Some (True, st))"

text \<open>A well-formed chain (spec, section 3: a singly linked list, no cycles, the terminal
  node has no successor): following \<^verbatim>\<open>next\<close> from \<open>a\<close> passes through at most \<open>k\<close>
  live handlers and then reaches a null link.\<close>

fun ends_within :: "Handler list \<Rightarrow> nat \<Rightarrow> addr \<Rightarrow> bool" where
  "ends_within hs 0 a = False"
| "ends_within hs (Suc k) a =
     (if a < length hs
      then (case next' (hs ! a) of None \<Rightarrow> True | Some n \<Rightarrow> ends_within hs k n)
      else False)"

text \<open>The collection obtained by adding the given pointers, in order, to an empty one.\<close>

definition collection_of :: "Document unique_ptr list \<Rightarrow> DocumentStructure" where
  "collection_of ps = foldl (\<lambda>s p. add p s) DocumentStructure_new ps"

text \<open>The text written by the branch of \<open>DisplayVisitor\<close> for a document.\<close>

fun display_line :: "Document \<Rightarrow> string" where
  "display_line PDFDocument = ''[Visitor] Displaying PDF content.'' @ newline"
| "display_line TXTDocument = ''[Visitor] Displaying TXT content.'' @ newline"

section \<open>Basic facts\<close>

lemma print_simps [simp]:
  "handlers (print s st) = handlers st"
  "cout (print s st) = cout st @ [s]"
  by (simp_all add: print_def)

lemma print_eq: "print s st = st\<lparr>cout := cout st @ [s]\<rparr>"
  by (simp add: print_def)

lemma handle_unfold:
  "handle self docType st =
     (if self < length (handlers st) then
        (case dyn_class (handlers st ! self) of
           FormatChecker \<Rightarrow>
             if recognized docType
             then delegate handle (next' (handlers st ! self)) docType (print (checking_line docType) st)
             else Some (False, print unsupported_line (print (checking_line docType) st))
         | SecurityChecker \<Rightarrow>
             delegate handle (next' (handlers st ! self)) docType (print (security_line docType) st))
      else None)"
  by (subst handle.simps)
     (simp only: Let_def checking_line_def security_line_def unsupported_line_def
        recognized_def delegate_def print_simps)

lemmas handle_induct = handle.raw_induct[unfolded Let_def print_simps,
    folded checking_line_def security_line_def unsupported_line_def recognized_def,
    folded delegate_def, rotated 1, consumes 1]

text \<open>A call of \<open>handle\<close> that returns has only appended to \<open>cout\<close>, and what it
  appends and returns does not depend on what \<open>cout\<close> held before.\<close>

lemma delegate_extends_cout:
  assumes IH: "\<And>a t st r. h a t st = Some r \<Longrightarrow>
      \<exists>out. snd r = st\<lparr>cout := cout st @ out\<rparr> \<and>
        (\<forall>c. handle a t (st\<lparr>cout := c\<rparr>) = Some (fst r, st\<lparr>cout := c @ out\<rparr>))"
    and d: "delegate h p t (print m st) = Some r"
  shows "\<exists>out. snd r = st\<lparr>cout := cout st @ m # out\<rparr> \<and>
        (\<forall>c. delegate handle p t (print m (st\<lparr>cout := c\<rparr>)) =
             Some (fst r, st\<lparr>cout := c @ m # out\<rparr>))"
proof (cases p)
  case None
  with d show ?thesis by (auto simp: delegate_def print_eq)
next
  case (Some n)
  with d have "h n t (print m st) = Some r" by (simp add: delegate_def)
  from IH[OF this] obtain out where
    r: "snd r = print m st\<lparr>cout := cout (print m st) @ out\<rparr>" and
    c: "\<And>c. handle n t (print m st\<lparr>cout := c\<rparr>) =
             Some (fst r, print m st\<lparr>cout := c @ out\<rparr>)"
    by blast
  have "snd r = st\<lparr>cout := cout st @ m # out\<rparr>"
    using r by (simp add: print_eq)
  moreover have "handle n t (print m (st\<lparr>cout := c\<rparr>)) =
           Some (fst r, st\<lparr>cout := c @ m # out\<rparr>)" for c
    using c[of "c @ [m]"] by (simp add: print_eq)
  ultimately show ?thesis using Some by (auto simp: delegate_def)
qed

lemma handle_extends_cout_aux:
  assumes "handle a t st = Some r"
  shows "\<exists>out. snd r = st\<lparr>cout := cout st @ out\<rparr> \<and>
           (\<forall>c. handle a t (st\<lparr>cout := c\<rparr>) = Some (fst r, st\<lparr>cout := c @ out\<rparr>))"
  using assms
proof (induction rule: handle_induct)
  case (1 h self docType st r)
  note IH = "1"(1) and body = "1"(2)
  from body have live: "self < length (handlers st)"
    by (simp split: if_splits)
  show ?case
  proof (cases "dyn_class (handlers st ! self)")
    case FormatChecker
    show ?thesis
    proof (cases "recognized docType")
      case True
      with body live FormatChecker have
        "delegate h (next' (handlers st ! self)) docType (print (checking_line docType) st) = Some r"
        by simp
      from delegate_extends_cout[of h, OF IH this] show ?thesis
        using live FormatChecker True by (subst handle_unfold) (simp, blast)
    next
      case False
      with body live FormatChecker have
        "r = (False, print unsupported_line (print (checking_line docType) st))"
        by simp
      then show ?thesis
        using live FormatChecker False
        by (subst handle_unfold) (simp add: print_eq, blast)
    qed
  next
    case SecurityChecker
    with body live have
      "delegate h (next' (handlers st ! self)) docType (print (security_line docType) st) = Some r"
      by simp
    from delegate_extends_cout[of h, OF IH this] show ?thesis
      using live SecurityChecker by (subst handle_unfold) (simp, blast)
  qed
qed

lemma handle_extends_cout:
  assumes "handle a t st = Some (b, st')"
  shows "\<exists>out. st' = st\<lparr>cout := cout st @ out\<rparr> \<and>
           (\<forall>c. handle a t (st\<lparr>cout := c\<rparr>) = Some (b, st\<lparr>cout := c @ out\<rparr>))"
  using handle_extends_cout_aux[OF assms] by simp

text \<open>On a well-formed chain every call of \<open>handle\<close> returns.\<close>

lemma handle_returns:
  "ends_within (handlers st) k a \<Longrightarrow> \<exists>b st'. handle a t st = Some (b, st')"
proof (induction k arbitrary: a st)
  case 0
  then show ?case by simp
next
  case (Suc k)
  from Suc.prems have live: "a < length (handlers st)"
    by (simp split: if_splits)
  have d: "\<exists>b st'. delegate handle (next' (handlers st ! a)) t (print m st) = Some (b, st')" for m
  proof (cases "next' (handlers st ! a)")
    case None
    then show ?thesis by (auto simp: delegate_def)
  next
    case (Some n)
    with Suc.prems live have "ends_within (handlers (print m st)) k n" by simp
    from Suc.IH[OF this] show ?thesis using Some by (simp add: delegate_def)
  qed
  show ?case
    using live d by (subst handle_unfold) (auto split: Handler_class.split)
qed

lemma handle_FormatChecker_rejects:
  assumes "a < length (handlers st)" and "dyn_class (handlers st ! a) = FormatChecker"
    and "\<not> recognized t"
  shows "handle a t st = Some (False, st\<lparr>cout := cout st @ [checking_line t, unsupported_line]\<rparr>)"
  using assms by (subst handle_unfold) (simp add: print_eq)

lemma handle_FormatChecker_accepts:
  assumes "a < length (handlers st)" and "dyn_class (handlers st ! a) = FormatChecker"
    and "recognized t"
  shows "handle a t st = delegate handle (next' (handlers st ! a)) t (print (checking_line t) st)"
  using assms by (subst handle_unfold) simp

lemma handle_SecurityChecker:
  assumes "a < length (handlers st)" and "dyn_class (handlers st ! a) = SecurityChecker"
  shows "handle a t st = delegate handle (next' (handlers st ! a)) t (print (security_line t) st)"
  using assms by (subst handle_unfold) simp

lemma handle_main_chain:
  assumes "a < length (handlers st)"
    and "handlers st ! a = \<lparr>dyn_class = FormatChecker, next' = Some b\<rparr>"
    and "b < length (handlers st)"
    and "handlers st ! b = \<lparr>dyn_class = SecurityChecker, next' = None\<rparr>"
  shows "handle a t st =
     Some (recognized t,
           st\<lparr>cout := cout st @
              (if recognized t then [checking_line t, security_line t]
               else [checking_line t, unsupported_line])\<rparr>)"
proof (cases "recognized t")
  case True
  have "handle b t (print (checking_line t) st) =
      Some (True, print (security_line t) (print (checking_line t) st))"
    using assms(3,4) by (subst handle_SecurityChecker) (simp_all add: delegate_def)
  then show ?thesis
    using assms(1,2) True
    by (subst handle_FormatChecker_accepts) (simp_all add: delegate_def print_eq)
next
  case False
  then show ?thesis
    using assms(1,2) by (subst handle_FormatChecker_rejects) simp_all
qed

lemma handle_SecurityChecker_False:
  assumes "a < length (handlers st)" and "dyn_class (handlers st ! a) = SecurityChecker"
    and "handle a t st = Some (False, st')"
  shows "\<exists>n. next' (handlers st ! a) = Some n \<and>
           handle n t (print (security_line t) st) = Some (False, st')"
  using assms(3) handle_SecurityChecker[OF assms(1,2), of t]
  by (cases "next' (handlers st ! a)") (simp_all add: delegate_def)

subsection \<open>Strategy and visitor\<close>

lemma foldl_setStrategy_snoc:
  "foldl (\<lambda>p x. setStrategy x p) p0 (xs @ [x]) = \<lparr>strategy = x\<rparr>"
  by (simp add: setStrategy_def)

lemma Strategy_process_neq_notice:
  "Strategy_process s t st \<noteq> print (''No strategy selected.'' @ newline) st"
proof
  assume "Strategy_process s t st = print (''No strategy selected.'' @ newline) st"
  then have "cout (Strategy_process s t st) = cout (print (''No strategy selected.'' @ newline) st)"
    by simp
  then show False by (cases s) simp_all
qed

lemma docs_foldl_add: "docs (foldl (\<lambda>s p. add p s) s ps) = docs s @ ps"
  by (induction ps arbitrary: s) (simp_all add: add_def)

lemma docs_collection_of [simp]: "docs (collection_of ps) = ps"
  by (simp add: collection_of_def docs_foldl_add DocumentStructure_new_def)

lemma collection_of_eq: "collection_of ps = \<lparr>docs = ps\<rparr>"
  by (rule DocumentStructure.equality) simp_all

lemma getAll_loop_eq: "getAll_loop ps result = result @ map get ps"
  by (induction ps arbitrary: result) simp_all

lemma accept_DisplayVisitor: "accept a d v st = print (display_line d) st"
  by (cases v; cases d) simp_all

lemma process_loop_owned:
  "process_loop (map (\<lambda>(a, d). Owns a d) ds) v st =
     Some (st\<lparr>cout := cout st @ map (\<lambda>(a, d). display_line d) ds\<rparr>)"
proof (induction ds arbitrary: st)
  case Nil
  show ?case by simp
next
  case (Cons x ds)
  obtain a d where x: "x = (a, d)" by (cases x)
  show ?case
    by (simp add: x Cons.IH accept_DisplayVisitor print_eq)
qed

lemma process_loop_fold:
  "process_loop (map (\<lambda>(a, d). Owns a d) ds) v st =
     Some (foldl (\<lambda>st (a, d). accept a d v st) st ds)"
  by (induction ds arbitrary: st) (auto)

lemma process_loop_extends_cout:
  "process_loop ps v st = Some st' \<Longrightarrow>
     \<exists>out. st' = st\<lparr>cout := cout st @ out\<rparr> \<and>
       (\<forall>c. process_loop ps v (st\<lparr>cout := c\<rparr>) = Some (st\<lparr>cout := c @ out\<rparr>))"
proof (induction ps arbitrary: st)
  case Nil
  then show ?case by (auto intro!: exI[of _ "[]"])
next
  case (Cons p ps)
  from Cons.prems obtain a d where p: "p = Owns a d"
    by (cases p) simp_all
  with Cons.prems have "process_loop ps v (print (display_line d) st) = Some st'"
    by (simp add: accept_DisplayVisitor)
  from Cons.IH[OF this] obtain out where
    st': "st' = print (display_line d) st\<lparr>cout := cout (print (display_line d) st) @ out\<rparr>" and
    c: "\<And>c. process_loop ps v (print (display_line d) st\<lparr>cout := c\<rparr>) =
            Some (print (display_line d) st\<lparr>cout := c @ out\<rparr>)"
    by blast
  have "st' = st\<lparr>cout := cout st @ display_line d # out\<rparr>"
    using st' by (simp add: print_eq)
  moreover have "process_loop (p # ps) v (st\<lparr>cout := c\<rparr>) =
      Some (st\<lparr>cout := c @ display_line d # out\<rparr>)" for c
    using c[of "c @ [display_line d]"] by (simp add: p accept_DisplayVisitor print_eq)
  ultimately show ?case by blast
qed

lemma build_structure_eq:
  "build_structure a b = collection_of (map (\<lambda>(a, d). Owns a d) [(a, PDFDocument), (b, TXTDocument)])"
  by (simp add: build_structure_def collection_of_def)

lemma process_owned:
  "DocumentStructure_process (collection_of (map (\<lambda>(a, d). Owns a d) ds)) v st =
     Some (collection_of (map (\<lambda>(a, d). Owns a d) ds),
           st\<lparr>cout := cout st @ map (\<lambda>(a, d). display_line d) ds\<rparr>)"
  by (simp add: DocumentStructure_process_def process_loop_owned)

section \<open>Chain of Responsibility: the claims\<close>

text \<open>
  Claim C1. Running the chain of \<^verbatim>\<open>main\<close>, a \<open>FormatChecker\<close> linked to a
  \<open>SecurityChecker\<close> that has no successor, on a document type \<open>t\<close> returns, and it
  returns true if and only if \<open>t\<close> is exactly one of \<^verbatim>\<open>"PDF"\<close>, \<^verbatim>\<open>"TXT"\<close>,
  \<^verbatim>\<open>"DOCX"\<close>; for every other string it returns false.
\<close>

theorem chain_accepts_exactly_recognized:
  assumes "a < length (handlers st)"
    and "handlers st ! a = \<lparr>dyn_class = FormatChecker, next' = Some b\<rparr>"
    and "b < length (handlers st)"
    and "handlers st ! b = \<lparr>dyn_class = SecurityChecker, next' = None\<rparr>"
  shows "\<exists>st'. handle a t st = Some (t = ''PDF'' \<or> t = ''TXT'' \<or> t = ''DOCX'', st')"
  using handle_main_chain[OF assms, of t] by (simp add: recognized_def)

theorem chain_accepts_exactly_recognized_witness:
  "build_chain \<lparr>handlers = [], cout = []\<rparr> =
     Some (0, \<lparr>handlers = [\<lparr>dyn_class = FormatChecker, next' = Some 1\<rparr>,
                            \<lparr>dyn_class = SecurityChecker, next' = None\<rparr>], cout = []\<rparr>)
   \<and> (\<exists>st'. handle 0 ''PDF''
          \<lparr>handlers = [\<lparr>dyn_class = FormatChecker, next' = Some 1\<rparr>,
                       \<lparr>dyn_class = SecurityChecker, next' = None\<rparr>], cout = []\<rparr> = Some (True, st'))
   \<and> (\<exists>st'. handle 0 ''DOCX''
          \<lparr>handlers = [\<lparr>dyn_class = FormatChecker, next' = Some 1\<rparr>,
                       \<lparr>dyn_class = SecurityChecker, next' = None\<rparr>], cout = []\<rparr> = Some (True, st'))
   \<and> (\<exists>st'. handle 0 ''pdf''
          \<lparr>handlers = [\<lparr>dyn_class = FormatChecker, next' = Some 1\<rparr>,
                       \<lparr>dyn_class = SecurityChecker, next' = None\<rparr>], cout = []\<rparr> = Some (False, st'))"
proof -
  let ?st = "\<lparr>handlers = [\<lparr>dyn_class = FormatChecker, next' = Some 1\<rparr>,
                       \<lparr>dyn_class = SecurityChecker, next' = None\<rparr>], cout = []\<rparr>"
  have h: "0 < length (handlers ?st)"
    "handlers ?st ! 0 = \<lparr>dyn_class = FormatChecker, next' = Some 1\<rparr>"
    "1 < length (handlers ?st)"
    "handlers ?st ! 1 = \<lparr>dyn_class = SecurityChecker, next' = None\<rparr>"
    by simp_all
  have b: "build_chain \<lparr>handlers = [], cout = []\<rparr> = Some (0, ?st)"
    by (simp add: build_chain_def make_shared_def setNext_def)
  show ?thesis
    using b chain_accepts_exactly_recognized[OF h, of "''PDF''"]
      chain_accepts_exactly_recognized[OF h, of "''DOCX''"]
      chain_accepts_exactly_recognized[OF h, of "''pdf''"]
    by simp
qed

text \<open>
  Claim C2. On every string outside the recognized set, \<open>FormatChecker::handle\<close> returns
  false without delegating: whatever its \<^verbatim>\<open>next\<close> link is, the call writes its own two
  lines and nothing else, so the line that \<open>SecurityChecker::handle\<close> writes first when
  it is invoked does not appear, and no other part of the state changes.
\<close>

theorem format_rejection_skips_successor:
  assumes "a < length (handlers st)"
    and "dyn_class (handlers st ! a) = FormatChecker"
    and "\<not> (t = ''PDF'' \<or> t = ''TXT'' \<or> t = ''DOCX'')"
  shows "handle a t st =
           Some (False, st\<lparr>cout := cout st @
                   [''[Chain] Checking format of '' @ t @ ''...'' @ newline,
                    ''Format not supported.'' @ newline]\<rparr>)
         \<and> (\<forall>t'. ''[Chain] Security check passed for '' @ t' @ ''.'' @ newline
               \<notin> set [''[Chain] Checking format of '' @ t @ ''...'' @ newline,
                         ''Format not supported.'' @ newline])"
proof
  from assms(3) have "\<not> recognized t" by (simp add: recognized_def)
  from handle_FormatChecker_rejects[OF assms(1,2) this]
  show "handle a t st =
           Some (False, st\<lparr>cout := cout st @
                   [''[Chain] Checking format of '' @ t @ ''...'' @ newline,
                    ''Format not supported.'' @ newline]\<rparr>)"
    by (simp add: checking_line_def unsupported_line_def)
  show "\<forall>t'. ''[Chain] Security check passed for '' @ t' @ ''.'' @ newline
               \<notin> set [''[Chain] Checking format of '' @ t @ ''...'' @ newline,
                         ''Format not supported.'' @ newline]"
    by simp
qed

theorem format_rejection_skips_successor_witness:
  "handle 0 ''XML''
      \<lparr>handlers = [\<lparr>dyn_class = FormatChecker, next' = Some 1\<rparr>,
                   \<lparr>dyn_class = SecurityChecker, next' = None\<rparr>], cout = []\<rparr> =
     Some (False,
       \<lparr>handlers = [\<lparr>dyn_class = FormatChecker, next' = Some 1\<rparr>,
                    \<lparr>dyn_class = SecurityChecker, next' = None\<rparr>],
        cout = [''[Chain] Checking format of XML...'' @ newline,
                ''Format not supported.'' @ newline]\<rparr>)"
  using format_rejection_skips_successor[of 0
      "\<lparr>handlers = [\<lparr>dyn_class = FormatChecker, next' = Some 1\<rparr>,
                   \<lparr>dyn_class = SecurityChecker, next' = None\<rparr>], cout = []\<rparr>" "''XML''"]
  by simp

text \<open>
  Claim C6. \<open>SecurityChecker::handle\<close> has no test of its own: after writing its line it
  delegates to the next handler and returns that handler's result when \<^verbatim>\<open>next\<close> is
  set, and returns true otherwise. Whenever it returns false, the false is the result
  of the handler it delegated to.
\<close>

theorem security_checker_always_passes:
  assumes "a < length (handlers st)"
    and "dyn_class (handlers st ! a) = SecurityChecker"
  shows "handle a t st =
           (case next' (handlers st ! a) of
              Some n \<Rightarrow> handle n t
                 (print (''[Chain] Security check passed for '' @ t @ ''.'' @ newline) st)
            | None \<Rightarrow> Some (True,
                 print (''[Chain] Security check passed for '' @ t @ ''.'' @ newline) st))
         \<and> (\<forall>st'. handle a t st = Some (False, st') \<longrightarrow>
               (\<exists>n. next' (handlers st ! a) = Some n \<and>
                  handle n t (print (''[Chain] Security check passed for '' @ t @ ''.'' @ newline) st)
                    = Some (False, st')))"
proof (intro conjI allI impI)
  show "handle a t st =
           (case next' (handlers st ! a) of
              Some n \<Rightarrow> handle n t
                 (print (''[Chain] Security check passed for '' @ t @ ''.'' @ newline) st)
            | None \<Rightarrow> Some (True,
                 print (''[Chain] Security check passed for '' @ t @ ''.'' @ newline) st))"
    using handle_SecurityChecker[OF assms, of t]
    unfolding delegate_def security_line_def .
next
  fix st'
  assume "handle a t st = Some (False, st')"
  from handle_SecurityChecker_False[OF assms this]
  show "\<exists>n. next' (handlers st ! a) = Some n \<and>
          handle n t (print (''[Chain] Security check passed for '' @ t @ ''.'' @ newline) st)
            = Some (False, st')"
    unfolding security_line_def .
qed

theorem security_checker_always_passes_witness:
  "handle 1 ''XML''
      \<lparr>handlers = [\<lparr>dyn_class = FormatChecker, next' = Some 1\<rparr>,
                   \<lparr>dyn_class = SecurityChecker, next' = None\<rparr>], cout = []\<rparr> =
     Some (True,
       \<lparr>handlers = [\<lparr>dyn_class = FormatChecker, next' = Some 1\<rparr>,
                    \<lparr>dyn_class = SecurityChecker, next' = None\<rparr>],
        cout = [''[Chain] Security check passed for XML.'' @ newline]\<rparr>)
   \<and> handle 0 ''XML''
      \<lparr>handlers = [\<lparr>dyn_class = SecurityChecker, next' = Some 1\<rparr>,
                   \<lparr>dyn_class = FormatChecker, next' = None\<rparr>], cout = []\<rparr> =
     Some (False,
       \<lparr>handlers = [\<lparr>dyn_class = SecurityChecker, next' = Some 1\<rparr>,
                    \<lparr>dyn_class = FormatChecker, next' = None\<rparr>],
        cout = [''[Chain] Security check passed for XML.'' @ newline,
                ''[Chain] Checking format of XML...'' @ newline,
                ''Format not supported.'' @ newline]\<rparr>)
   \<and> handle 1 ''XML''
      \<lparr>handlers = [\<lparr>dyn_class = SecurityChecker, next' = Some 1\<rparr>,
                   \<lparr>dyn_class = FormatChecker, next' = None\<rparr>],
       cout = [''[Chain] Security check passed for XML.'' @ newline]\<rparr> =
     Some (False,
       \<lparr>handlers = [\<lparr>dyn_class = SecurityChecker, next' = Some 1\<rparr>,
                    \<lparr>dyn_class = FormatChecker, next' = None\<rparr>],
        cout = [''[Chain] Security check passed for XML.'' @ newline,
                ''[Chain] Checking format of XML...'' @ newline,
                ''Format not supported.'' @ newline]\<rparr>)"
proof -
  let ?m = "''[Chain] Security check passed for '' @ ''XML'' @ ''.'' @ newline"
  let ?A = "\<lparr>handlers = [\<lparr>dyn_class = FormatChecker, next' = Some 1\<rparr>,
                   \<lparr>dyn_class = SecurityChecker, next' = None\<rparr>], cout = []\<rparr>"
  let ?B = "\<lparr>handlers = [\<lparr>dyn_class = SecurityChecker, next' = Some 1\<rparr>,
                   \<lparr>dyn_class = FormatChecker, next' = None\<rparr>], cout = []\<rparr>"
  let ?B' = "\<lparr>handlers = [\<lparr>dyn_class = SecurityChecker, next' = Some 1\<rparr>,
                    \<lparr>dyn_class = FormatChecker, next' = None\<rparr>],
        cout = [''[Chain] Security check passed for XML.'' @ newline,
                ''[Chain] Checking format of XML...'' @ newline,
                ''Format not supported.'' @ newline]\<rparr>"
  have hA: "1 < length (handlers ?A)" "dyn_class (handlers ?A ! 1) = SecurityChecker"
    and nA: "next' (handlers ?A ! 1) = None"
    by simp_all
  have hB: "0 < length (handlers ?B)" "dyn_class (handlers ?B ! 0) = SecurityChecker"
    and nB: "next' (handlers ?B ! 0) = Some 1"
    by simp_all
  have pA: "print ?m ?A = \<lparr>handlers = [\<lparr>dyn_class = FormatChecker, next' = Some 1\<rparr>,
                    \<lparr>dyn_class = SecurityChecker, next' = None\<rparr>],
        cout = [''[Chain] Security check passed for XML.'' @ newline]\<rparr>"
    and pB: "print ?m ?B = \<lparr>handlers = [\<lparr>dyn_class = SecurityChecker, next' = Some 1\<rparr>,
                   \<lparr>dyn_class = FormatChecker, next' = None\<rparr>],
       cout = [''[Chain] Security check passed for XML.'' @ newline]\<rparr>"
    by (simp_all add: print_def)
  have runB: "handle 0 ''XML'' ?B = Some (False, ?B')"
    by code_simp
  from security_checker_always_passes[OF hA, of "''XML''", THEN conjunct1]
  have 1: "handle 1 ''XML'' ?A = Some (True, print ?m ?A)"
    by (simp only: nA option.case)
  from security_checker_always_passes[OF hB, of "''XML''", THEN conjunct2, rule_format, OF runB]
  have 2: "handle 1 ''XML'' (print ?m ?B) = Some (False, ?B')"
    by (simp only: nB option.inject ex_simps simp_thms)
  show ?thesis
    using 1 2 runB unfolding pA pB by (intro conjI)
qed

text \<open>
  Claim C10. \<open>handle\<close> leaves the chain unchanged: a call that returns hands back the
  same handler objects with the same \<^verbatim>\<open>next\<close> links (only \<open>setNext\<close> assigns
  \<^verbatim>\<open>next\<close>), and a second call on the same handler with the same string returns the
  same boolean. On a well-formed chain the call does return.
\<close>

theorem handle_preserves_chain:
  "(handle a t st = Some (b, st') \<longrightarrow>
      handlers st' = handlers st \<and>
      (\<exists>st''. handle a t st' = Some (b, st'') \<and> handlers st'' = handlers st))
   \<and> (ends_within (handlers st) k a \<longrightarrow> (\<exists>b' st1. handle a t st = Some (b', st1)))"
proof (intro conjI impI)
  assume r: "handle a t st = Some (b, st')"
  from handle_extends_cout[OF r] obtain out where
    st': "st' = st\<lparr>cout := cout st @ out\<rparr>" and
    c: "\<And>c. handle a t (st\<lparr>cout := c\<rparr>) = Some (b, st\<lparr>cout := c @ out\<rparr>)"
    by blast
  show "handlers st' = handlers st" using st' by simp
  have "handle a t st' = Some (b, st\<lparr>cout := (cout st @ out) @ out\<rparr>)"
    using c[of "cout st @ out"] st' by simp
  then show "\<exists>st''. handle a t st' = Some (b, st'') \<and> handlers st'' = handlers st"
    by simp
next
  assume "ends_within (handlers st) k a"
  then show "\<exists>b' st1. handle a t st = Some (b', st1)" by (rule handle_returns)
qed

theorem handle_preserves_chain_witness:
  "handle 0 ''PDF''
      \<lparr>handlers = [\<lparr>dyn_class = FormatChecker, next' = Some 1\<rparr>,
                   \<lparr>dyn_class = SecurityChecker, next' = None\<rparr>], cout = []\<rparr> =
     Some (True,
       \<lparr>handlers = [\<lparr>dyn_class = FormatChecker, next' = Some 1\<rparr>,
                    \<lparr>dyn_class = SecurityChecker, next' = None\<rparr>],
        cout = [''[Chain] Checking format of PDF...'' @ newline,
                ''[Chain] Security check passed for PDF.'' @ newline]\<rparr>)
   \<and> ends_within [\<lparr>dyn_class = FormatChecker, next' = Some 1\<rparr>,
                   \<lparr>dyn_class = SecurityChecker, next' = None\<rparr>] 2 0
   \<and> (\<exists>st''. handle 0 ''PDF''
       \<lparr>handlers = [\<lparr>dyn_class = FormatChecker, next' = Some 1\<rparr>,
                    \<lparr>dyn_class = SecurityChecker, next' = None\<rparr>],
        cout = [''[Chain] Checking format of PDF...'' @ newline,
                ''[Chain] Security check passed for PDF.'' @ newline]\<rparr> = Some (True, st'')
       \<and> handlers st'' = [\<lparr>dyn_class = FormatChecker, next' = Some 1\<rparr>,
                    \<lparr>dyn_class = SecurityChecker, next' = None\<rparr>])
   \<and> (\<exists>b' st1. handle 0 ''PDF''
      \<lparr>handlers = [\<lparr>dyn_class = FormatChecker, next' = Some 1\<rparr>,
                   \<lparr>dyn_class = SecurityChecker, next' = None\<rparr>], cout = []\<rparr> = Some (b', st1))"
proof -
  let ?hs = "[\<lparr>dyn_class = FormatChecker, next' = Some 1\<rparr>,
              \<lparr>dyn_class = SecurityChecker, next' = None\<rparr>]"
  let ?st = "\<lparr>handlers = ?hs, cout = []\<rparr>"
  let ?st' = "\<lparr>handlers = ?hs,
        cout = [''[Chain] Checking format of PDF...'' @ newline,
                ''[Chain] Security check passed for PDF.'' @ newline]\<rparr>"
  have run: "handle 0 ''PDF'' ?st = Some (True, ?st')"
    by code_simp
  have wf: "ends_within (handlers ?st) 2 0"
    by code_simp
  show ?thesis
    using run wf handle_preserves_chain[of 0 "''PDF''" ?st True ?st' 2]
    by simp
qed

section \<open>Strategy: the claims\<close>

text \<open>
  Claim C4. After any sequence of \<open>setStrategy\<close> calls, \<open>executeStrategy\<close> runs exactly
  the strategy passed to the last call, with the given document type: the outcome depends
  on the last argument alone, and each \<open>setStrategy\<close> replaces whatever was set before.
\<close>

theorem last_strategy_wins:
  "executeStrategy (foldl (\<lambda>p x. setStrategy x p) p0 (xs @ [Owns a s])) t st =
      (\<lparr>strategy = Owns a s\<rparr>, Strategy_process s t st)
   \<and> executeStrategy (foldl (\<lambda>p x. setStrategy x p) p0 (xs @ [x])) t st =
       executeStrategy \<lparr>strategy = x\<rparr> t st
   \<and> setStrategy x (setStrategy y p) = setStrategy x p
   \<and> strategy (setStrategy x p) = x"
  unfolding foldl_setStrategy_snoc
  by (simp add: setStrategy_def executeStrategy_def)

theorem last_strategy_wins_witness:
  "executeStrategy
     (foldl (\<lambda>p x. setStrategy x p) DocumentProcessor_new
        [Owns 0 PrintStrategy, nullptr, Owns 1 SaveStrategy])
     ''PDF'' \<lparr>handlers = [], cout = []\<rparr> =
   (\<lparr>strategy = Owns 1 SaveStrategy\<rparr>,
    \<lparr>handlers = [], cout = [''[Strategy] Saving PDF document...'' @ newline]\<rparr>)"
  using last_strategy_wins[of DocumentProcessor_new "[Owns 0 PrintStrategy, nullptr]" 1
      SaveStrategy "''PDF''" "\<lparr>handlers = [], cout = []\<rparr>", THEN conjunct1]
  by (simp add: print_def)

text \<open>
  Claim C5. With no strategy set, \<open>executeStrategy\<close> returns normally: it writes the
  notice \<^verbatim>\<open>No strategy selected.\<close>, changes nothing else, and the resulting state is
  not the one any strategy's \<open>process\<close> would have produced.
\<close>

theorem execute_without_strategy:
  assumes "strategy p = nullptr"
  shows "executeStrategy p t st =
           (p, st\<lparr>cout := cout st @ [''No strategy selected.'' @ newline]\<rparr>)
         \<and> (\<forall>s. snd (executeStrategy p t st) \<noteq> Strategy_process s t st)"
  using assms Strategy_process_neq_notice[of _ t st]
  by (simp add: executeStrategy_def print_eq[symmetric] del: Strategy_process.simps) metis

theorem execute_without_strategy_witness:
  "strategy (setStrategy nullptr (setStrategy (Owns 0 SaveStrategy) DocumentProcessor_new)) = nullptr
   \<and> executeStrategy (setStrategy nullptr (setStrategy (Owns 0 SaveStrategy) DocumentProcessor_new))
        ''PDF'' \<lparr>handlers = [], cout = []\<rparr> =
       (\<lparr>strategy = nullptr\<rparr>,
        \<lparr>handlers = [], cout = [''No strategy selected.'' @ newline]\<rparr>)"
proof -
  have h: "strategy (setStrategy nullptr (setStrategy (Owns 0 SaveStrategy) DocumentProcessor_new)) = nullptr"
    by (simp add: setStrategy_def)
  show ?thesis
    using h execute_without_strategy[OF h, of "''PDF''" "\<lparr>handlers = [], cout = []\<rparr>"]
    by (simp add: setStrategy_def DocumentProcessor_new_def)
qed

text \<open>
  Claim C9. A freshly constructed \<open>DocumentProcessor\<close> has no strategy: before any
  \<open>setStrategy\<close> call, \<open>executeStrategy\<close> takes the no-strategy branch and runs no
  strategy.
\<close>

theorem fresh_processor_has_no_strategy:
  "strategy DocumentProcessor_new = nullptr
   \<and> executeStrategy DocumentProcessor_new t st =
       (DocumentProcessor_new, st\<lparr>cout := cout st @ [''No strategy selected.'' @ newline]\<rparr>)
   \<and> (\<forall>s. snd (executeStrategy DocumentProcessor_new t st) \<noteq> Strategy_process s t st)"
  using Strategy_process_neq_notice[of _ t st]
  by (simp add: executeStrategy_def DocumentProcessor_new_def print_eq[symmetric]
        del: Strategy_process.simps) metis

theorem fresh_processor_has_no_strategy_witness:
  "executeStrategy DocumentProcessor_new ''TXT'' \<lparr>handlers = [], cout = []\<rparr> =
     (\<lparr>strategy = nullptr\<rparr>, \<lparr>handlers = [], cout = [''No strategy selected.'' @ newline]\<rparr>)
   \<and> snd (executeStrategy DocumentProcessor_new ''TXT'' \<lparr>handlers = [], cout = []\<rparr>) \<noteq>
       Strategy_process PrintStrategy ''TXT'' \<lparr>handlers = [], cout = []\<rparr>"
proof -
  note f = fresh_processor_has_no_strategy[of "''TXT''" "\<lparr>handlers = [], cout = []\<rparr>"]
  have a: "executeStrategy DocumentProcessor_new ''TXT'' \<lparr>handlers = [], cout = []\<rparr> =
     (\<lparr>strategy = nullptr\<rparr>, \<lparr>handlers = [], cout = [''No strategy selected.'' @ newline]\<rparr>)"
    using f[THEN conjunct2, THEN conjunct1] by (simp add: DocumentProcessor_new_def)
  have b: "snd (executeStrategy DocumentProcessor_new ''TXT'' \<lparr>handlers = [], cout = []\<rparr>) \<noteq>
       Strategy_process PrintStrategy ''TXT'' \<lparr>handlers = [], cout = []\<rparr>"
    using f[THEN conjunct2, THEN conjunct2, THEN spec, of PrintStrategy] .
  show ?thesis using a b by (intro conjI)
qed

section \<open>Visitor: the claims\<close>

text \<open>
  Claim C3. On a collection of documents, \<open>process\<close> calls the visitor once for each
  member, in insertion order and without stopping early, and the class of the member
  selects the overload: the final state is the one reached by running, member after
  member, \<open>visit_PDFDocument\<close> for a \<open>PDFDocument\<close> and \<open>visit_TXTDocument\<close> for a
  \<open>TXTDocument\<close>, and the output gains one line per member. For the collection of
  \<^verbatim>\<open>main\<close> that is the PDF line followed by the TXT line; for the empty collection
  nothing happens.
\<close>

theorem process_visits_members_in_order:
  "DocumentStructure_process (collection_of (map (\<lambda>(a, d). Owns a d) ds)) v st =
     Some (collection_of (map (\<lambda>(a, d). Owns a d) ds),
           foldl (\<lambda>st (a, d). case d of PDFDocument \<Rightarrow> visit_PDFDocument v a st
                                      | TXTDocument \<Rightarrow> visit_TXTDocument v a st) st ds)
   \<and> DocumentStructure_process (collection_of (map (\<lambda>(a, d). Owns a d) ds)) v st =
     Some (collection_of (map (\<lambda>(a, d). Owns a d) ds),
           st\<lparr>cout := cout st @
             map (\<lambda>(a, d). case d of
                     PDFDocument \<Rightarrow> ''[Visitor] Displaying PDF content.'' @ newline
                   | TXTDocument \<Rightarrow> ''[Visitor] Displaying TXT content.'' @ newline) ds\<rparr>)
   \<and> DocumentStructure_process (build_structure a b) v st =
     Some (build_structure a b,
           st\<lparr>cout := cout st @ [''[Visitor] Displaying PDF content.'' @ newline,
                                 ''[Visitor] Displaying TXT content.'' @ newline]\<rparr>)
   \<and> DocumentStructure_process DocumentStructure_new v st = Some (DocumentStructure_new, st)"
proof (intro conjI)
  have "(\<lambda>st (a, d). case d of PDFDocument \<Rightarrow> visit_PDFDocument v a st
                                      | TXTDocument \<Rightarrow> visit_TXTDocument v a st) =
        (\<lambda>st (a, d). accept a d v st)"
    by (auto simp: fun_eq_iff split: Document.split)
  then show "DocumentStructure_process (collection_of (map (\<lambda>(a, d). Owns a d) ds)) v st =
     Some (collection_of (map (\<lambda>(a, d). Owns a d) ds),
           foldl (\<lambda>st (a, d). case d of PDFDocument \<Rightarrow> visit_PDFDocument v a st
                                      | TXTDocument \<Rightarrow> visit_TXTDocument v a st) st ds)"
    by (simp add: DocumentStructure_process_def process_loop_fold)
  have "(\<lambda>(a, d). case d of
                     PDFDocument \<Rightarrow> ''[Visitor] Displaying PDF content.'' @ newline
                   | TXTDocument \<Rightarrow> ''[Visitor] Displaying TXT content.'' @ newline) =
        (\<lambda>(a :: addr, d). display_line d)"
    by (auto simp: fun_eq_iff split: Document.split)
  then show "DocumentStructure_process (collection_of (map (\<lambda>(a, d). Owns a d) ds)) v st =
     Some (collection_of (map (\<lambda>(a, d). Owns a d) ds),
           st\<lparr>cout := cout st @
             map (\<lambda>(a, d). case d of
                     PDFDocument \<Rightarrow> ''[Visitor] Displaying PDF content.'' @ newline
                   | TXTDocument \<Rightarrow> ''[Visitor] Displaying TXT content.'' @ newline) ds\<rparr>)"
    by (simp only: process_owned)
  show "DocumentStructure_process (build_structure a b) v st =
     Some (build_structure a b,
           st\<lparr>cout := cout st @ [''[Visitor] Displaying PDF content.'' @ newline,
                                 ''[Visitor] Displaying TXT content.'' @ newline]\<rparr>)"
    unfolding build_structure_eq process_owned by simp
  show "DocumentStructure_process DocumentStructure_new v st = Some (DocumentStructure_new, st)"
    by (simp add: DocumentStructure_process_def DocumentStructure_new_def)
qed

theorem process_visits_members_in_order_witness:
  "DocumentStructure_process
     (collection_of [Owns 5 TXTDocument, Owns 7 PDFDocument, Owns 9 TXTDocument])
     DisplayVisitor \<lparr>handlers = [], cout = []\<rparr> =
   Some (collection_of [Owns 5 TXTDocument, Owns 7 PDFDocument, Owns 9 TXTDocument],
         \<lparr>handlers = [],
          cout = [''[Visitor] Displaying TXT content.'' @ newline,
                  ''[Visitor] Displaying PDF content.'' @ newline,
                  ''[Visitor] Displaying TXT content.'' @ newline]\<rparr>)"
  using process_visits_members_in_order[of
      "[(5, TXTDocument), (7, PDFDocument), (9, TXTDocument)]" DisplayVisitor
      "\<lparr>handlers = [], cout = []\<rparr>" 0 1]
  by simp

text \<open>
  Claim C7. On a collection into which \<open>N\<close> pointers have been added, \<open>getAll\<close>
  returns \<open>N\<close> raw pointers, the \<open>i\<close>-th being the address held by the \<open>i\<close>-th
  pointer added; the collection keeps every \<open>unique_ptr\<close> it owns. For a collection of
  documents the result is the list of their addresses in insertion order.
\<close>

theorem getAll_returns_members_in_order:
  "fst (getAll (collection_of ps)) = map get ps
   \<and> length (fst (getAll (collection_of ps))) = length ps
   \<and> snd (getAll (collection_of ps)) = collection_of ps
   \<and> docs (snd (getAll (collection_of ps))) = ps
   \<and> fst (getAll (collection_of (map (\<lambda>(a, d). Owns a d) ds))) = map (\<lambda>(a, d). Some a) ds"
proof -
  have "map get (map (\<lambda>(a, d). Owns a d) ds) = map (\<lambda>(a, d). Some a) ds"
    by (induction ds) auto
  then show ?thesis
    by (simp add: getAll_def getAll_loop_eq)
qed

theorem getAll_returns_members_in_order_witness:
  "getAll (build_structure 3 4) =
     ([Some 3, Some 4], \<lparr>docs = [Owns 3 PDFDocument, Owns 4 TXTDocument]\<rparr>)"
proof -
  have "build_structure 3 4 = collection_of [Owns 3 PDFDocument, Owns 4 TXTDocument]"
    by (simp add: build_structure_def collection_of_def)
  then show ?thesis
    using getAll_returns_members_in_order[of "[Owns 3 PDFDocument, Owns 4 TXTDocument]" "[]"]
    by (simp add: prod_eq_iff collection_of_eq)
qed

text \<open>
  Claim C8. \<open>process\<close> leaves the collection as it was: a call that returns hands back
  the same members in the same order, so \<open>getAll\<close> gives the same pointers before and
  after, and a second \<open>process\<close> call returns and writes the same lines as the first.
  On a collection of documents the call does return.
\<close>

theorem process_leaves_collection_unchanged:
  "(DocumentStructure_process s v st = Some (s', st') \<longrightarrow>
      s' = s \<and> fst (getAll s') = fst (getAll s) \<and>
      (\<exists>st''. DocumentStructure_process s' v st' = Some (s, st'') \<and>
          drop (length (cout st')) (cout st'') = drop (length (cout st)) (cout st')))
   \<and> (\<exists>st1. DocumentStructure_process (collection_of (map (\<lambda>(a, d). Owns a d) ds)) v st =
          Some (collection_of (map (\<lambda>(a, d). Owns a d) ds), st1))"
proof (intro conjI impI)
  assume r: "DocumentStructure_process s v st = Some (s', st')"
  then have s': "s' = s" and l: "process_loop (docs s) v st = Some st'"
    by (auto simp: DocumentStructure_process_def split: option.splits)
  from process_loop_extends_cout[OF l] obtain out where
    st': "st' = st\<lparr>cout := cout st @ out\<rparr>" and
    c: "\<And>c. process_loop (docs s) v (st\<lparr>cout := c\<rparr>) = Some (st\<lparr>cout := c @ out\<rparr>)"
    by blast
  show "s' = s" by (rule s')
  show "fst (getAll s') = fst (getAll s)" using s' by simp
  have "process_loop (docs s) v st' = Some (st\<lparr>cout := (cout st @ out) @ out\<rparr>)"
    using c[of "cout st @ out"] st' by simp
  then have "DocumentStructure_process s' v st' = Some (s, st\<lparr>cout := (cout st @ out) @ out\<rparr>)"
    by (simp add: DocumentStructure_process_def s')
  moreover have "drop (length (cout st')) (cout (st\<lparr>cout := (cout st @ out) @ out\<rparr>)) =
      drop (length (cout st)) (cout st')"
    by (simp add: st')
  ultimately show "\<exists>st''. DocumentStructure_process s' v st' = Some (s, st'') \<and>
          drop (length (cout st')) (cout st'') = drop (length (cout st)) (cout st')"
    by blast
next
  show "\<exists>st1. DocumentStructure_process (collection_of (map (\<lambda>(a, d). Owns a d) ds)) v st =
          Some (collection_of (map (\<lambda>(a, d). Owns a d) ds), st1)"
    by (simp add: process_owned)
qed

theorem process_leaves_collection_unchanged_witness:
  "DocumentStructure_process (build_structure 0 1) DisplayVisitor \<lparr>handlers = [], cout = []\<rparr> =
     Some (build_structure 0 1,
           \<lparr>handlers = [], cout = [''[Visitor] Displaying PDF content.'' @ newline,
                                   ''[Visitor] Displaying TXT content.'' @ newline]\<rparr>)
   \<and> fst (getAll (build_structure 0 1)) = [Some 0, Some 1]
   \<and> (\<exists>st''. DocumentStructure_process (build_structure 0 1) DisplayVisitor
          \<lparr>handlers = [], cout = [''[Visitor] Displaying PDF content.'' @ newline,
                                   ''[Visitor] Displaying TXT content.'' @ newline]\<rparr> =
          Some (build_structure 0 1, st'') \<and>
        drop 2 (cout st'') = [''[Visitor] Displaying PDF content.'' @ newline,
                               ''[Visitor] Displaying TXT content.'' @ newline])"
proof -
  let ?st = "\<lparr>handlers = [], cout = []\<rparr>"
  let ?st' = "\<lparr>handlers = [], cout = [''[Visitor] Displaying PDF content.'' @ newline,
                                   ''[Visitor] Displaying TXT content.'' @ newline]\<rparr>"
  have run: "DocumentStructure_process (build_structure 0 1) DisplayVisitor ?st =
     Some (build_structure 0 1, ?st')"
    by code_simp
  have g: "fst (getAll (build_structure 0 1)) = [Some 0, Some 1]"
    by code_simp
  show ?thesis
    using run g process_leaves_collection_unchanged[of "build_structure 0 1" DisplayVisitor
        ?st "build_structure 0 1" ?st']
    by (simp add: numeral_2_eq_2)
qed

end
